theory Spec2Isabelle
  imports Main "HOL-Library.AList" "HOL-Library.Sublist"
begin

section \<open>Overview\<close>

text \<open>
  A shallow embedding of two parts of the repository.
  \<^item> \<open>WikiIndexManager\<close>: \<open>searchWiki\<close>, \<open>filterResults\<close>, \<open>removeDuplicates\<close>,
    \<open>collectTopicPages\<close>, \<open>createShortcut\<close>, \<open>getExistingShortcuts\<close>,
    \<open>updateIndexPage\<close>, \<open>addToMultipleIndexes\<close> and \<open>getStatistics\<close>.
  \<^item> \<open>LarkWikiMCPAgent\<close>: \<open>sendMCPRequest\<close> and \<open>handleMCPResponse\<close>, with the table
    of pending requests.

  The manager has one flow of control, so an \<open>await\<close> is sequencing: a method takes the
  state and returns its result with the new state. A rejected promise is a result
  \<open>Inl e\<close>, a \<open>try\<close>/\<open>catch\<close> is a case distinction on the result, and a loop is a
  recursive function over the list it runs through. What the methods print is kept, line
  by line, in the state.
\<close>

section \<open>JavaScript values used by the index manager\<close>

text \<open>
  The source types its search hits as \<open>any\<close>. A field that may be absent is an
  \<open>option\<close>; \<open>None\<close> is JavaScript's \<open>undefined\<close>. A string is truthy when it is
  present and non-empty.
\<close>

definition truthy :: "string option \<Rightarrow> bool" where
  "truthy v = (case v of None \<Rightarrow> False | Some s \<Rightarrow> s \<noteq> [])"

text \<open>\<open>a || b\<close> on two optional strings.\<close>

definition js_or :: "string option \<Rightarrow> string option \<Rightarrow> string option" where
  "js_or a b = (if truthy a then a else b)"

text \<open>\<open>a || ''\<close>: the string itself, or the empty string when it is falsy.\<close>

definition or_empty :: "string option \<Rightarrow> string" where
  "or_empty a = (case a of None \<Rightarrow> [] | Some s \<Rightarrow> s)"

text \<open>
  \<open>String.prototype.toLowerCase\<close>, on the ASCII letters. Characters are bytes here, so
  letters outside ASCII are left as they are.
\<close>

definition lower_char :: "char \<Rightarrow> char" where
  "lower_char c =
     (let n = (of_char c :: nat) in if 65 \<le> n \<and> n \<le> 90 then char_of (n + 32) else c)"

definition toLowerCase :: "string \<Rightarrow> string" where
  "toLowerCase s = map lower_char s"

text \<open>
  A rejected promise or a thrown exception is a value of \<open>js_error\<close>: \<open>Error m\<close> is
  \<open>new Error(m)\<close>, and \<open>TypeError m\<close> is what reading a property of \<open>undefined\<close>
  or calling what is no function throws.
\<close>

datatype js_error = Error string | TypeError string

subsection \<open>A JavaScript \<open>Map\<close> as an association list in insertion order\<close>

text \<open>
  \<open>Map.prototype.set\<close> replaces the value of a key in place and appends a new key at
  the end: this is \<^const>\<open>AList.update\<close>. Iteration follows the list.
\<close>

definition map_has :: "('k \<times> 'v) list \<Rightarrow> 'k \<Rightarrow> bool" where
  "map_has m k = (map_of m k \<noteq> None)"

definition map_get :: "('k \<times> 'v) list \<Rightarrow> 'k \<Rightarrow> 'v option" where
  "map_get m k = map_of m k"

definition map_set :: "('k \<times> 'v) list \<Rightarrow> 'k \<Rightarrow> 'v \<Rightarrow> ('k \<times> 'v) list" where
  "map_set m k v = AList.update k v m"

definition map_values :: "('k \<times> 'v) list \<Rightarrow> 'v list" where
  "map_values m = map snd m"

section \<open>Data model of \<open>WikiIndexManager\<close>\<close>

text \<open>A search hit: the fields of the untyped item that the manager reads.\<close>

record page =
  node_token :: "string option"
  obj_token :: "string option"
  title :: "string option"
  content :: "string option"
  space_id :: "string option"

text \<open>
  \<open>interface Topic\<close>. A value of the type \<open>'r\<close> names one pattern object of the heap:
  a \<open>RegExp\<close>, or whatever the configuration put in its place.
\<close>

record 'r Topic =
  topic_id :: string
  topic_name :: string
  topic_keywords :: "string list"
  includePatterns :: "'r list option"
  excludePatterns :: "'r list option"
  priority :: "int option"

section \<open>\<open>filterResults\<close>\<close>

text \<open>
  \<open>pattern.test(text)\<close> is a parameter: \<open>test pattern lastIndex text\<close> is what the call
  does for a pattern object whose \<open>lastIndex\<close> is the given number. It throws (a string
  of a JSON configuration has no method \<open>test\<close>), or it returns the answer with the new
  \<open>lastIndex\<close>. A \<open>RegExp\<close> with the flag \<open>g\<close> or \<open>y\<close> starts its search at
  \<open>lastIndex\<close> and moves it; without these flags the answer depends on the text alone.
  The \<open>lastIndex\<close> of the pattern objects is a table; a pattern that is not in the table
  has \<open>lastIndex\<close> 0, as a new \<open>RegExp\<close> has.
\<close>

type_synonym 'r regexp_test = "'r \<Rightarrow> nat \<Rightarrow> string \<Rightarrow> js_error + bool \<times> nat"

definition last_index :: "('r \<times> nat) list \<Rightarrow> 'r \<Rightarrow> nat" where
  "last_index table pattern = (case map_get table pattern of None \<Rightarrow> 0 | Some i \<Rightarrow> i)"

definition page_text :: "page \<Rightarrow> string" where
  "page_text result = toLowerCase (or_empty (title result) @ '' '' @ or_empty (content result))"

text \<open>
  \<open>for (const pattern of patterns) if (pattern.test(text)) return ...\<close>: whether a
  pattern answered true, or what a call threw; the loop stops there.
\<close>

fun test_any ::
  "'r regexp_test \<Rightarrow> string \<Rightarrow> 'r list \<Rightarrow> ('r \<times> nat) list \<Rightarrow> (js_error + bool) \<times> ('r \<times> nat) list"
where
  "test_any test text [] table = (Inr False, table)"
| "test_any test text (pattern # rest) table =
     (case test pattern (last_index table pattern) text of
        Inl e \<Rightarrow> (Inl e, table)
      | Inr (answer, i) \<Rightarrow>
          if answer then (Inr True, map_set table pattern i)
          else test_any test text rest (map_set table pattern i))"


text \<open>The callback of \<open>results.filter\<close>: whether the item is kept.\<close>

definition keep_result ::
  "'r regexp_test \<Rightarrow> 'r Topic \<Rightarrow> page \<Rightarrow> ('r \<times> nat) list \<Rightarrow> (js_error + bool) \<times> ('r \<times> nat) list"
where
  "keep_result test topic result table =
     (let text = page_text result in
      case (case excludePatterns topic of
              None \<Rightarrow> (Inr False, table)
            | Some pats \<Rightarrow> test_any test text pats table) of
        (Inl e, table1) \<Rightarrow> (Inl e, table1)
      | (Inr excluded, table1) \<Rightarrow>
          if excluded then (Inr False, table1)
          else (case includePatterns topic of
                  None \<Rightarrow> (Inr True, table1)
                | Some pats \<Rightarrow> test_any test text pats table1))"

text \<open>
  \<open>results.filter(callback)\<close>, from the first item to the last: the items that are
  kept, or the exception of the first call that throws.
\<close>

fun filterResults ::
  "'r regexp_test \<Rightarrow> page list \<Rightarrow> 'r Topic \<Rightarrow> ('r \<times> nat) list \<Rightarrow>
   (js_error + page list) \<times> ('r \<times> nat) list"
where
  "filterResults test [] topic table = (Inr [], table)"
| "filterResults test (result # results) topic table =
     (case keep_result test topic result table of
        (Inl e, table1) \<Rightarrow> (Inl e, table1)
      | (Inr keep, table1) \<Rightarrow>
          (case filterResults test results topic table1 of
             (Inl e, table2) \<Rightarrow> (Inl e, table2)
           | (Inr kept, table2) \<Rightarrow> (Inr (if keep then result # kept else kept), table2)))"

section \<open>\<open>removeDuplicates\<close>\<close>

definition page_key :: "page \<Rightarrow> string option" where
  "page_key p = js_or (node_token p) (obj_token p)"

fun removeDuplicates_loop :: "(string \<times> page) list \<Rightarrow> page list \<Rightarrow> (string \<times> page) list" where
  "removeDuplicates_loop seen [] = seen"
| "removeDuplicates_loop seen (p # pages) =
     (case page_key p of
        None \<Rightarrow> removeDuplicates_loop seen pages
      | Some key \<Rightarrow>
          if key \<noteq> [] \<and> \<not> map_has seen key
          then removeDuplicates_loop (map_set seen key p) pages
          else removeDuplicates_loop seen pages)"

definition removeDuplicates :: "page list \<Rightarrow> page list" where
  "removeDuplicates pages = map_values (removeDuplicates_loop [] pages)"

section \<open>The agent, the console and the manager's state\<close>

text \<open>The payload \<open>{items: [...]}\<close> of a search or of a listing; \<open>items\<close> may be absent.\<close>

datatype 'a listing = Listing (items: "'a list option")

text \<open>A child node as \<open>LIST_NODES\<close> returns it, and the node \<open>CREATE_NODE\<close> returns.\<close>

record wiki_node =
  node_type :: "string option"
  origin_node_token :: "string option"

record created_node =
  created_node_token :: "string option"

text \<open>
  The manager receives its agent through the constructor. The three operations it calls,
  the clock behind \<open>new Date()\<close> and the timer behind \<open>delay\<close> are the fields of an
  environment over a state \<open>'w\<close> of the outside world. Every call may change that state
  and ends in an error or in a payload, \<open>None\<close> when the payload is \<open>undefined\<close>.
  \<^item> \<open>agent_SEARCH_WIKI space_id query\<close>
  \<^item> \<open>agent_LIST_NODES parent_node_token page_size\<close>
  \<^item> \<open>agent_CREATE_NODE parent_node_token origin_node_token origin_space_id\<close>, with
    \<open>node_type: 'shortcut'\<close>
\<close>

record 'w env =
  agent_SEARCH_WIKI :: "string \<Rightarrow> string \<Rightarrow> 'w \<Rightarrow> (js_error + page listing option) \<times> 'w"
  agent_LIST_NODES :: "string \<Rightarrow> nat \<Rightarrow> 'w \<Rightarrow> (js_error + wiki_node listing option) \<times> 'w"
  agent_CREATE_NODE ::
    "string \<Rightarrow> string option \<Rightarrow> string option \<Rightarrow> 'w \<Rightarrow> (js_error + created_node option) \<times> 'w"
  now :: "'w \<Rightarrow> nat"
  sleep :: "nat \<Rightarrow> 'w \<Rightarrow> 'w"

record 'r IndexPage =
  nodeToken :: string
  spaceId :: string
  indexTitle :: string
  topics :: "'r Topic list"
  autoUpdate :: bool

record WikiInfo =
  wikiSpaceId :: string
  spaceName :: string
  searchEnabled :: bool

text \<open>
  \<open>interface ShortcutInfo\<close>. The target's token, title and space come from an untyped
  search hit, so they are optional strings here.
\<close>

record ShortcutInfo =
  targetNodeToken :: "string option"
  targetTitle :: "string option"
  targetSpaceId :: "string option"
  indexNodeToken :: string
  topicId :: string
  createdAt :: nat
  matchedKeywords :: "string list"

text \<open>One constructor for each \<open>console.log\<close> and \<open>console.error\<close> of the methods below.\<close>

datatype console_line =
    LogCollecting string
  | LogSearchingIn string
  | LogFound nat string
  | ErrSearching string js_error
  | LogTotalUnique nat
  | LogCreatingShortcut "string option" string
  | LogShortcutCreated "string option"
  | ErrCreateShortcut js_error
  | LogUpdating string
  | LogProcessingTopic string
  | ErrItemFailed "string option" js_error
  | LogTopicDone string nat nat
  | LogUpdateCompleted string
  | LogAdding string nat
  | ErrAddToIndex string js_error

text \<open>
  The private fields of \<open>WikiIndexManager\<close>, the \<open>lastIndex\<close> of the pattern objects
  that its topics hold, the console and the outside world. The keys of a \<open>Map\<close> are
  distinct, so \<open>indexPages.size\<close> is the length of the list.
\<close>

record ('r, 'w) manager =
  wikis :: "WikiInfo list"
  indexPages :: "(string \<times> 'r IndexPage) list"
  shortcuts :: "(string option \<times> ShortcutInfo list) list"
  searchCache :: "(string \<times> page list) list"
  regexps :: "('r \<times> nat) list"
  console :: "console_line list"
  world :: 'w

definition print :: "console_line \<Rightarrow> ('r, 'w) manager \<Rightarrow> ('r, 'w) manager" where
  "print l s = s\<lparr>console := console s @ [l]\<rparr>"

definition delay :: "'w env \<Rightarrow> nat \<Rightarrow> ('r, 'w) manager \<Rightarrow> ('r, 'w) manager" where
  "delay E ms s = s\<lparr>world := sleep E ms (world s)\<rparr>"

section \<open>\<open>searchWiki\<close> and \<open>collectTopicPages\<close>\<close>

definition searchWiki ::
  "'w env \<Rightarrow> string \<Rightarrow> string \<Rightarrow> ('r, 'w) manager \<Rightarrow> (js_error + page list) \<times> ('r, 'w) manager"
where
  "searchWiki E space keyword s =
     (let cacheKey = space @ ''-'' @ keyword in
      case map_get (searchCache s) cacheKey of
        Some cached \<Rightarrow> (Inr cached, s)
      | None \<Rightarrow>
          (case agent_SEARCH_WIKI E space keyword (world s) of
             (Inl e, w) \<Rightarrow> (Inl e, s\<lparr>world := w\<rparr>)
           | (Inr None, w) \<Rightarrow> (Inl (TypeError ''results is undefined''), s\<lparr>world := w\<rparr>)
           | (Inr (Some results), w) \<Rightarrow>
               (let its = (case items results of None \<Rightarrow> [] | Some xs \<Rightarrow> xs) in
                (Inr its, s\<lparr>world := w, searchCache := map_set (searchCache s) cacheKey its\<rparr>))))"

text \<open>
  The loop over \<open>topic.keywords\<close> for one wiki; \<open>allPages\<close> is the accumulator. The
  \<open>catch\<close> takes what the search rejects with and what the filter throws.
\<close>

fun collect_keywords ::
  "'w env \<Rightarrow> 'r regexp_test \<Rightarrow> 'r Topic \<Rightarrow> WikiInfo \<Rightarrow> string list \<Rightarrow>
   page list \<times> ('r, 'w) manager \<Rightarrow> page list \<times> ('r, 'w) manager"
where
  "collect_keywords E test topic wiki [] acc = acc"
| "collect_keywords E test topic wiki (keyword # rest) (allPages, s) =
     (case searchWiki E (wikiSpaceId wiki) keyword s of
        (Inr searchResults, s1) \<Rightarrow>
          (case filterResults test searchResults topic (regexps s1) of
             (Inr filteredResults, table) \<Rightarrow>
               collect_keywords E test topic wiki rest
                 (allPages @ filteredResults,
                  print (LogFound (length filteredResults) keyword) (s1\<lparr>regexps := table\<rparr>))
           | (Inl e, table) \<Rightarrow>
               collect_keywords E test topic wiki rest
                 (allPages, print (ErrSearching keyword e) (s1\<lparr>regexps := table\<rparr>)))
      | (Inl e, s1) \<Rightarrow>
          collect_keywords E test topic wiki rest (allPages, print (ErrSearching keyword e) s1))"

text \<open>The loop over \<open>this.wikis\<close>.\<close>

fun collect_wikis ::
  "'w env \<Rightarrow> 'r regexp_test \<Rightarrow> 'r Topic \<Rightarrow> WikiInfo list \<Rightarrow>
   page list \<times> ('r, 'w) manager \<Rightarrow> page list \<times> ('r, 'w) manager"
where
  "collect_wikis E test topic [] acc = acc"
| "collect_wikis E test topic (wiki # rest) (allPages, s) =
     (if \<not> searchEnabled wiki then collect_wikis E test topic rest (allPages, s)
      else collect_wikis E test topic rest
             (collect_keywords E test topic wiki (topic_keywords topic)
                (allPages, print (LogSearchingIn (spaceName wiki)) s)))"

text \<open>Everything \<open>collectTopicPages\<close> gathers before it removes the duplicates.\<close>

definition gatherTopicPages ::
  "'w env \<Rightarrow> 'r regexp_test \<Rightarrow> 'r Topic \<Rightarrow> ('r, 'w) manager \<Rightarrow> page list \<times> ('r, 'w) manager"
where
  "gatherTopicPages E test topic s =
     collect_wikis E test topic (wikis s) ([], print (LogCollecting (topic_name topic)) s)"

definition collectTopicPages ::
  "'w env \<Rightarrow> 'r regexp_test \<Rightarrow> 'r Topic \<Rightarrow> ('r, 'w) manager \<Rightarrow> page list \<times> ('r, 'w) manager"
where
  "collectTopicPages E test topic s =
     (case gatherTopicPages E test topic s of
        (allPages, s1) \<Rightarrow>
          (let uniquePages = removeDuplicates allPages in
           (uniquePages, print (LogTotalUnique (length uniquePages)) s1)))"

section \<open>\<open>createShortcut\<close>, \<open>getExistingShortcuts\<close> and \<open>updateIndexPage\<close>\<close>

definition createShortcut ::
  "'w env \<Rightarrow> string \<Rightarrow> string option \<Rightarrow> string option \<Rightarrow> ('r, 'w) manager \<Rightarrow>
   (js_error + created_node) \<times> ('r, 'w) manager"
where
  "createShortcut E indexToken targetToken targetSpace s =
     (let s0 = print (LogCreatingShortcut targetToken indexToken) s in
      case agent_CREATE_NODE E indexToken targetToken targetSpace (world s0) of
        (Inr (Some result), w) \<Rightarrow>
          (Inr result, print (LogShortcutCreated (created_node_token result)) (s0\<lparr>world := w\<rparr>))
      | (Inr None, w) \<Rightarrow>
          (let e = TypeError ''result is undefined'' in
           (Inl e, print (ErrCreateShortcut e) (s0\<lparr>world := w\<rparr>)))
      | (Inl e, w) \<Rightarrow> (Inl e, print (ErrCreateShortcut e) (s0\<lparr>world := w\<rparr>)))"

definition getExistingShortcuts ::
  "'w env \<Rightarrow> string \<Rightarrow> ('r, 'w) manager \<Rightarrow> (js_error + wiki_node list) \<times> ('r, 'w) manager"
where
  "getExistingShortcuts E parentNodeToken s =
     (case agent_LIST_NODES E parentNodeToken 500 (world s) of
        (Inl e, w) \<Rightarrow> (Inl e, s\<lparr>world := w\<rparr>)
      | (Inr None, w) \<Rightarrow> (Inl (TypeError ''result is undefined''), s\<lparr>world := w\<rparr>)
      | (Inr (Some result), w) \<Rightarrow>
          (Inr (filter (\<lambda>item. node_type item = Some ''shortcut'')
                  (case items result of None \<Rightarrow> [] | Some xs \<Rightarrow> xs)),
           s\<lparr>world := w\<rparr>))"

text \<open>
  \<open>if (!this.shortcuts.has(t)) this.shortcuts.set(t, []); this.shortcuts.get(t)!.push(info)\<close>
\<close>

definition record_shortcut ::
  "string option \<Rightarrow> ShortcutInfo \<Rightarrow> (string option \<times> ShortcutInfo list) list \<Rightarrow>
   (string option \<times> ShortcutInfo list) list"
where
  "record_shortcut targetToken shortcutInfo m =
     (case map_get m targetToken of
        None \<Rightarrow> map_set m targetToken [shortcutInfo]
      | Some infos \<Rightarrow> map_set m targetToken (infos @ [shortcutInfo]))"

text \<open>
  The body of \<open>for (const page of pages)\<close>. The counters \<open>created\<close> and \<open>skipped\<close> travel
  with the state.
\<close>

definition process_page ::
  "'w env \<Rightarrow> string \<Rightarrow> 'r IndexPage \<Rightarrow> 'r Topic \<Rightarrow> string option set \<Rightarrow> page \<Rightarrow>
   ('r, 'w) manager \<times> nat \<times> nat \<Rightarrow> ('r, 'w) manager \<times> nat \<times> nat"
where
  "process_page E indexToken indexPage topic existingTokens pg acc =
     (case acc of (s, created, skipped) \<Rightarrow>
        (let targetToken = js_or (node_token pg) (obj_token pg) in
         if targetToken \<in> existingTokens then (s, created, skipped + 1)
         else
           (let targetSpace = js_or (space_id pg) (Some (spaceId indexPage)) in
            case createShortcut E indexToken targetToken targetSpace s of
              (Inr result, s1) \<Rightarrow>
                (let shortcutInfo =
                   \<lparr>targetNodeToken = targetToken, targetTitle = title pg,
                    targetSpaceId = targetSpace, indexNodeToken = indexToken,
                    topicId = topic_id topic, createdAt = now E (world s1),
                    matchedKeywords = topic_keywords topic\<rparr>;
                   s2 = s1\<lparr>shortcuts := record_shortcut targetToken shortcutInfo (shortcuts s1)\<rparr>
                 in (delay E 500 s2, created + 1, skipped))
            | (Inl e, s1) \<Rightarrow> (print (ErrItemFailed (title pg) e) s1, created, skipped))))"

fun process_pages ::
  "'w env \<Rightarrow> string \<Rightarrow> 'r IndexPage \<Rightarrow> 'r Topic \<Rightarrow> string option set \<Rightarrow> page list \<Rightarrow>
   ('r, 'w) manager \<times> nat \<times> nat \<Rightarrow> ('r, 'w) manager \<times> nat \<times> nat"
where
  "process_pages E indexToken indexPage topic existingTokens [] acc = acc"
| "process_pages E indexToken indexPage topic existingTokens (pg # pages) acc =
     process_pages E indexToken indexPage topic existingTokens pages
       (process_page E indexToken indexPage topic existingTokens pg acc)"

text \<open>The body of \<open>for (const topic of indexPage.topics)\<close>.\<close>

definition process_topic ::
  "'w env \<Rightarrow> 'r regexp_test \<Rightarrow> string \<Rightarrow> 'r IndexPage \<Rightarrow> string option set \<Rightarrow>
   'r Topic \<Rightarrow> ('r, 'w) manager \<Rightarrow> ('r, 'w) manager"
where
  "process_topic E test indexToken indexPage existingTokens topic s =
     (case collectTopicPages E test topic (print (LogProcessingTopic (topic_name topic)) s) of
        (pages, s1) \<Rightarrow>
          (case process_pages E indexToken indexPage topic existingTokens pages (s1, 0, 0) of
             (s2, created, skipped) \<Rightarrow>
               print (LogTopicDone (topic_name topic) created skipped) s2))"

fun process_topics ::
  "'w env \<Rightarrow> 'r regexp_test \<Rightarrow> string \<Rightarrow> 'r IndexPage \<Rightarrow> string option set \<Rightarrow>
   'r Topic list \<Rightarrow> ('r, 'w) manager \<Rightarrow> ('r, 'w) manager"
where
  "process_topics E test indexToken indexPage existingTokens [] s = s"
| "process_topics E test indexToken indexPage existingTokens (topic # rest) s =
     process_topics E test indexToken indexPage existingTokens rest
       (process_topic E test indexToken indexPage existingTokens topic s)"

definition updateIndexPage ::
  "'w env \<Rightarrow> 'r regexp_test \<Rightarrow> string \<Rightarrow> ('r, 'w) manager \<Rightarrow>
   (js_error + unit) \<times> ('r, 'w) manager"
where
  "updateIndexPage E test indexToken s =
     (case map_get (indexPages s) indexToken of
        None \<Rightarrow> (Inl (Error (''Index page not found: '' @ indexToken)), s)
      | Some indexPage \<Rightarrow>
          (case getExistingShortcuts E indexToken (print (LogUpdating (indexTitle indexPage)) s) of
             (Inl e, s1) \<Rightarrow> (Inl e, s1)
           | (Inr existingNodes, s1) \<Rightarrow>
               (let existingTokens = set (map origin_node_token existingNodes);
                    s2 = process_topics E test indexToken indexPage existingTokens
                           (topics indexPage) s1
                in (Inr (), print (LogUpdateCompleted (indexTitle indexPage)) s2))))"

section \<open>\<open>addToMultipleIndexes\<close>\<close>

fun add_to_indexes ::
  "'w env \<Rightarrow> string \<Rightarrow> string \<Rightarrow> string list \<Rightarrow> ('r, 'w) manager \<Rightarrow> ('r, 'w) manager"
where
  "add_to_indexes E targetToken targetSpace [] s = s"
| "add_to_indexes E targetToken targetSpace (indexToken # rest) s =
     (case createShortcut E indexToken (Some targetToken) (Some targetSpace) s of
        (Inr result, s1) \<Rightarrow> add_to_indexes E targetToken targetSpace rest (delay E 500 s1)
      | (Inl e, s1) \<Rightarrow>
          add_to_indexes E targetToken targetSpace rest (print (ErrAddToIndex indexToken e) s1))"

definition addToMultipleIndexes ::
  "'w env \<Rightarrow> string \<Rightarrow> string \<Rightarrow> string list \<Rightarrow> ('r, 'w) manager \<Rightarrow> ('r, 'w) manager"
where
  "addToMultipleIndexes E targetToken targetSpace indexNodeTokens s =
     add_to_indexes E targetToken targetSpace indexNodeTokens
       (print (LogAdding targetToken (length indexNodeTokens)) s)"

section \<open>\<open>getStatistics\<close>\<close>

record stats =
  totalWikis :: nat
  totalIndexPages :: nat
  totalShortcuts :: nat
  shortcutsByTopic :: "(string \<times> nat) list"
  duplicatePages :: "string option list"

text \<open>The inner loop's body: \<open>count = get(topicId) || 0; set(topicId, count + 1)\<close>.\<close>

definition count_topic :: "ShortcutInfo \<Rightarrow> stats \<Rightarrow> stats" where
  "count_topic shortcut st =
     (let count = (case map_get (shortcutsByTopic st) (topicId shortcut) of
                     None \<Rightarrow> 0 | Some c \<Rightarrow> c)
      in st\<lparr>shortcutsByTopic := map_set (shortcutsByTopic st) (topicId shortcut) (count + 1)\<rparr>)"

text \<open>The outer loop's body, for one entry of \<open>this.shortcuts\<close>.\<close>

definition stats_entry :: "string option \<times> ShortcutInfo list \<Rightarrow> stats \<Rightarrow> stats" where
  "stats_entry entry st =
     (case entry of (token, infos) \<Rightarrow>
        (let st1 = st\<lparr>totalShortcuts := totalShortcuts st + length infos\<rparr>;
             st2 = (if length infos > 1
                    then st1\<lparr>duplicatePages := duplicatePages st1 @ [token]\<rparr> else st1)
         in fold count_topic infos st2))"

definition getStatistics :: "('r, 'w) manager \<Rightarrow> stats" where
  "getStatistics s =
     fold stats_entry (shortcuts s)
       \<lparr>totalWikis = length (wikis s), totalIndexPages = length (indexPages s),
        totalShortcuts = 0, shortcutsByTopic = [], duplicatePages = []\<rparr>"

section \<open>The request correlator of \<open>LarkWikiMCPAgent\<close>\<close>



text \<open>
  What a promise's continuation is called with: \<open>resolve(v)\<close> or \<open>reject(e)\<close>. A
  promise is named by a number; \<open>settlements\<close> lists the calls of the continuations in
  the order they happen, and the first call for a promise decides it.
\<close>

datatype 'a settlement = Resolved "'a option" | Rejected js_error

text \<open>
  The fields \<open>requestId\<close> and \<open>pendingRequests\<close>, the requests written to the server's
  standard input (\<open>None\<close> when there is no process), and the settlements so far. The
  counter is an unbounded natural number.
\<close>

record ('p, 'a) correlator =
  requestId :: nat
  pendingRequests :: "(nat \<times> nat) list"
  stdin :: "(string \<times> 'p \<times> nat) list option"
  settlements :: "(nat \<times> 'a settlement) list"










text \<open>
  What \<open>sendMCPRequest\<close> maintains: the counter starts at 1, so every pending id is
  positive and below the counter, and the entry of id \<open>k\<close> holds the continuations of the
  promise that the request \<open>k\<close> returned.
\<close>

definition corr_ok :: "('p, 'a) correlator \<Rightarrow> bool" where
  "corr_ok s =
     (0 < requestId s \<and>
      list_all (\<lambda>e. snd e = fst e \<and> 0 < fst e \<and> fst e < requestId s) (pendingRequests s))"

section \<open>Reading the console and the accumulated records\<close>

text \<open>
  The creations that were started (\<open>Creating shortcut: target -> index\<close>), the topics
  that were finished, and the failures that were printed by \<open>updateIndexPage\<close> and by
  \<open>createShortcut\<close>, each in the order of the console.
\<close>

definition attempts :: "console_line list \<Rightarrow> (string option \<times> string) list" where
  "attempts ls = concat (map (\<lambda>l. case l of LogCreatingShortcut t i \<Rightarrow> [(t, i)] | _ \<Rightarrow> []) ls)"

definition topics_done :: "console_line list \<Rightarrow> string list" where
  "topics_done ls = concat (map (\<lambda>l. case l of LogTopicDone n c k \<Rightarrow> [n] | _ \<Rightarrow> []) ls)"

definition item_failures :: "console_line list \<Rightarrow> (string option \<times> js_error) list" where
  "item_failures ls = concat (map (\<lambda>l. case l of ErrItemFailed t e \<Rightarrow> [(t, e)] | _ \<Rightarrow> []) ls)"

definition create_failures :: "console_line list \<Rightarrow> js_error list" where
  "create_failures ls = concat (map (\<lambda>l. case l of ErrCreateShortcut e \<Rightarrow> [e] | _ \<Rightarrow> []) ls)"

text \<open>The lines that were printed between two states.\<close>

definition printed :: "('r, 'w) manager \<Rightarrow> ('r, 'w) manager \<Rightarrow> console_line list" where
  "printed s s' = drop (length (console s)) (console s')"

text \<open>The lines that \<open>collectTopicPages\<close> prints.\<close>

fun search_line :: "console_line \<Rightarrow> bool" where
  "search_line (LogCollecting n) = True"
| "search_line (LogSearchingIn n) = True"
| "search_line (LogFound n k) = True"
| "search_line (ErrSearching k e) = True"
| "search_line (LogTotalUnique n) = True"
| "search_line l = False"

text \<open>
  All accumulated records, the records filed under one target, the index documents
  these are attached to, and the targets that have a record for one index document.
\<close>

definition records :: "('r, 'w) manager \<Rightarrow> ShortcutInfo list" where
  "records s = concat (map snd (shortcuts s))"

definition records_of :: "('r, 'w) manager \<Rightarrow> string option \<Rightarrow> ShortcutInfo list" where
  "records_of s t = (case map_get (shortcuts s) t of None \<Rightarrow> [] | Some infos \<Rightarrow> infos)"

definition index_documents :: "('r, 'w) manager \<Rightarrow> string option \<Rightarrow> string list" where
  "index_documents s t = remdups (map indexNodeToken (records_of s t))"

definition linked_targets :: "string \<Rightarrow> ('r, 'w) manager \<Rightarrow> string option list" where
  "linked_targets indexToken s =
     map targetNodeToken (filter (\<lambda>r. indexNodeToken r = indexToken) (records s))"

text \<open>
  The candidates that the loop over the topics meets, topic after topic: the pages
  \<open>collectTopicPages\<close> returns in the state the loop has reached.
\<close>

fun pass_candidates ::
  "'w env \<Rightarrow> 'r regexp_test \<Rightarrow> string \<Rightarrow> 'r IndexPage \<Rightarrow> string option set \<Rightarrow>
   'r Topic list \<Rightarrow> ('r, 'w) manager \<Rightarrow> page list"
where
  "pass_candidates E test indexToken indexPage existingTokens [] s = []"
| "pass_candidates E test indexToken indexPage existingTokens (topic # rest) s =
     fst (collectTopicPages E test topic (print (LogProcessingTopic (topic_name topic)) s))
     @ pass_candidates E test indexToken indexPage existingTokens rest
         (process_topic E test indexToken indexPage existingTokens topic s)"

text \<open>
  A stretch of a pass over the candidates \<open>cands\<close> that finishes the topics \<open>names\<close>: the
  registries stay, the keys of \<open>shortcuts\<close> stay distinct, no record is lost, and none is
  added when every candidate is linked already; one creation is started for each
  candidate that is not linked yet, every failed creation is printed for its item, and
  when none failed every candidate is linked, before the pass or by a record.
\<close>

definition pass_seg ::
  "string \<Rightarrow> string option set \<Rightarrow> page list \<Rightarrow> string list \<Rightarrow>
   ('r, 'w) manager \<Rightarrow> ('r, 'w) manager \<Rightarrow> bool"
where
  "pass_seg indexToken existingTokens cands names s s' =
     (wikis s' = wikis s \<and> indexPages s' = indexPages s
      \<and> set (records s) \<subseteq> set (records s')
      \<and> (distinct (map fst (shortcuts s)) \<longrightarrow> distinct (map fst (shortcuts s')))
      \<and> ((\<forall>p \<in> set cands. page_key p \<in> existingTokens) \<longrightarrow> shortcuts s' = shortcuts s)
      \<and> (\<exists>out. console s' = console s @ out
            \<and> attempts out =
                map (\<lambda>p. (page_key p, indexToken))
                  (filter (\<lambda>p. page_key p \<notin> existingTokens) cands)
            \<and> topics_done out = names
            \<and> map snd (item_failures out) = create_failures out
            \<and> (item_failures out = [] \<longrightarrow>
                 (\<forall>p \<in> set cands. page_key p \<in> existingTokens
                    \<or> page_key p \<in> set (linked_targets indexToken s')))))"

text \<open>A stretch in which only \<open>collectTopicPages\<close> prints and no record is added.\<close>

definition quiet :: "('r, 'w) manager \<Rightarrow> ('r, 'w) manager \<Rightarrow> bool" where
  "quiet s s' =
     (wikis s' = wikis s \<and> indexPages s' = indexPages s \<and> shortcuts s' = shortcuts s
      \<and> (\<exists>out. console s' = console s @ out \<and> list_all search_line out))"

section \<open>Sample data for the examples\<close>



text \<open>
  Patterns named by the string they look for. \<open>plain_test\<close> is the \<open>test\<close> of
  patterns without flags: the answer is whether the text contains the string, and
  \<open>lastIndex\<close> stays. \<open>global_test\<close> is the \<open>test\<close> of patterns with the flag \<open>g\<close>:
  the search starts at \<open>lastIndex\<close>, a match moves \<open>lastIndex\<close> behind it, and a
  failure sets it to 0.
\<close>

fun contains :: "string \<Rightarrow> string \<Rightarrow> bool" where
  "contains pattern [] = (pattern = [])"
| "contains pattern (c # cs) = (take (length pattern) (c # cs) = pattern \<or> contains pattern cs)"

definition plain_test :: "string regexp_test" where
  "plain_test pattern i text = Inr (contains pattern text, i)"



text \<open>Two items with the title \<open>bar\<close>, and a topic that excludes \<open>bar\<close>.\<close>

definition page_bar1 :: page where
  "page_bar1 = \<lparr>node_token = Some ''P1'', obj_token = None, title = Some ''bar'',
     content = None, space_id = None\<rparr>"

definition page_bar2 :: page where
  "page_bar2 = \<lparr>node_token = Some ''P2'', obj_token = None, title = Some ''bar'',
     content = None, space_id = None\<rparr>"

definition topic_no_bar :: "string Topic" where
  "topic_no_bar = \<lparr>topic_id = ''t-no-bar'', topic_name = ''No bar'', topic_keywords = [''bar''],
     includePatterns = None, excludePatterns = Some [''bar''], priority = None\<rparr>"

text \<open>
  A remote service that keeps the links it was asked to create, fails the next
  \<open>remote_faults\<close> creations, and answers the two queries \<open>foo\<close> and \<open>bar\<close>.
\<close>

record remote =
  remote_links :: "(string \<times> string option) list"
  remote_faults :: nat
  remote_clock :: nat

definition page_A :: page where
  "page_A = \<lparr>node_token = Some ''A'', obj_token = None, title = Some ''Foo doc'',
     content = None, space_id = None\<rparr>"

definition page_B :: page where
  "page_B = \<lparr>node_token = None, obj_token = Some ''B'', title = Some ''Foo page'',
     content = Some ''FooBar'', space_id = Some ''W2''\<rparr>"

definition page_A2 :: page where
  "page_A2 = \<lparr>node_token = Some ''A'', obj_token = Some ''A-obj'', title = Some ''Foo doc, again'',
     content = None, space_id = None\<rparr>"

definition page_N :: page where
  "page_N = \<lparr>node_token = None, obj_token = None, title = Some ''Foo without a token'',
     content = None, space_id = None\<rparr>"

definition sample_hits :: "string \<Rightarrow> page list" where
  "sample_hits query =
     (if query = ''foo'' then [page_A, page_N, page_B]
      else if query = ''bar'' then [page_A2] else [])"

definition sample_env :: "remote env" where
  "sample_env =
     \<lparr>agent_SEARCH_WIKI = (\<lambda>space query w. (Inr (Some (Listing (Some (sample_hits query)))), w)),
      agent_LIST_NODES = (\<lambda>parent size w.
        (Inr (Some (Listing (Some (take size
           (map (\<lambda>l. \<lparr>node_type = Some ''shortcut'', origin_node_token = snd l\<rparr>)
              (filter (\<lambda>l. fst l = parent) (remote_links w))))))), w)),
      agent_CREATE_NODE = (\<lambda>parent origin space w.
        if remote_faults w > 0
        then (Inl (Error ''rate limited''), w\<lparr>remote_faults := remote_faults w - 1\<rparr>)
        else (Inr (Some \<lparr>created_node_token = Some ''new''\<rparr>),
              w\<lparr>remote_links := remote_links w @ [(parent, origin)]\<rparr>)),
      now = remote_clock,
      sleep = (\<lambda>ms w. w\<lparr>remote_clock := remote_clock w + ms\<rparr>)\<rparr>"

definition topic_foo :: "string Topic" where
  "topic_foo = \<lparr>topic_id = ''t-foo'', topic_name = ''Foo'', topic_keywords = [''foo''],
     includePatterns = None, excludePatterns = None, priority = None\<rparr>"

definition topic_bar :: "string Topic" where
  "topic_bar = \<lparr>topic_id = ''t-bar'', topic_name = ''Bar'', topic_keywords = [''bar''],
     includePatterns = None, excludePatterns = None, priority = Some 1\<rparr>"

definition topic_both :: "string Topic" where
  "topic_both = \<lparr>topic_id = ''t-both'', topic_name = ''Both'', topic_keywords = [''foo'', ''bar''],
     includePatterns = Some [''foo''], excludePatterns = Some [''bar''], priority = None\<rparr>"


definition sample_index :: "string Topic list \<Rightarrow> string IndexPage" where
  "sample_index ts =
     \<lparr>nodeToken = ''IDX'', spaceId = ''W'', indexTitle = ''Index'', topics = ts,
      autoUpdate = True\<rparr>"

definition sample_manager :: "string Topic list \<Rightarrow> nat \<Rightarrow> (string, remote) manager" where
  "sample_manager ts faults =
     \<lparr>wikis = [\<lparr>wikiSpaceId = ''W'', spaceName = ''Wiki'', searchEnabled = True\<rparr>],
      indexPages = [(''IDX'', sample_index ts)],
      shortcuts = [], searchCache = [], regexps = [], console = [],
      world = \<lparr>remote_links = [], remote_faults = faults, remote_clock = 0\<rparr>\<rparr>"

text \<open>
  Runs of \<open>updateIndexPage\<close> on the sample data: one pass over two topics that share
  a page; one pass whose first creation fails; a pass after the links of an earlier pass
  were removed on the remote side; and passes over two index documents.
\<close>

definition first_run :: "(string, remote) manager" where
  "first_run =
     snd (updateIndexPage sample_env plain_test ''IDX'' (sample_manager [topic_foo, topic_bar] 0))"

definition faulty_run :: "(string, remote) manager" where
  "faulty_run =
     snd (updateIndexPage sample_env plain_test ''IDX'' (sample_manager [topic_foo, topic_bar] 1))"

definition one_topic_faulty_run :: "(string, remote) manager" where
  "one_topic_faulty_run =
     snd (updateIndexPage sample_env plain_test ''IDX'' (sample_manager [topic_foo] 1))"

definition one_topic_run :: "(string, remote) manager" where
  "one_topic_run = snd (updateIndexPage sample_env plain_test ''IDX'' (sample_manager [topic_foo] 0))"

definition relinked_run :: "(string, remote) manager" where
  "relinked_run =
     snd (updateIndexPage sample_env plain_test ''IDX''
       (one_topic_run\<lparr>world := (world one_topic_run)\<lparr>remote_links := []\<rparr>\<rparr>))"

definition two_indexes_run :: "(string, remote) manager" where
  "two_indexes_run =
     snd (updateIndexPage sample_env plain_test ''IDX2''
       (snd (updateIndexPage sample_env plain_test ''IDX''
          ((sample_manager [topic_foo] 0)
             \<lparr>indexPages :=
                [(''IDX'', sample_index [topic_foo]),
                 (''IDX2'', \<lparr>nodeToken = ''IDX2'', spaceId = ''W'', indexTitle = ''Second index'',
                             topics = [topic_foo], autoUpdate = False\<rparr>)]\<rparr>))))"

section \<open>The request correlator\<close>











lemma corr_ok_initial:
  "corr_ok \<lparr>requestId = 1, pendingRequests = [], stdin = written, settlements = []\<rparr>"
  by (simp add: corr_ok_def)








section \<open>Filtering and deduplication\<close>







text \<open>
  A pattern that is a string of a JSON configuration has no method \<open>test\<close>: the call
  throws for the first item, the filter returns nothing, and \<open>collectTopicPages\<close> prints
  the exception as the error of the keyword and goes on.
\<close>

lemma pattern_without_test_throws:
  "fst (filterResults (\<lambda>pattern i tx. Inl (TypeError ''pattern.test is not a function''))
          [page_bar1, page_bar2] topic_no_bar []) =
     Inl (TypeError ''pattern.test is not a function'')
   \<and> fst (collectTopicPages sample_env
          (\<lambda>pattern i tx. Inl (TypeError ''pattern.test is not a function''))
          topic_both (sample_manager [] 0)) = []
   \<and> console (snd (collectTopicPages sample_env
          (\<lambda>pattern i tx. Inl (TypeError ''pattern.test is not a function''))
          topic_both (sample_manager [] 0))) =
       [LogCollecting ''Both'', LogSearchingIn ''Wiki'',
        ErrSearching ''foo'' (TypeError ''pattern.test is not a function''),
        ErrSearching ''bar'' (TypeError ''pattern.test is not a function''),
        LogTotalUnique 0]"
  by code_simp


lemma loop_distinct:
  "distinct (map fst seen) \<Longrightarrow> distinct (map fst (removeDuplicates_loop seen ps))"
  by (induction ps arbitrary: seen) (auto simp: map_set_def distinct_update split: option.splits)

lemma loop_map_of:
  "map_of (removeDuplicates_loop seen ps) k =
     (case map_of seen k of
        Some p \<Rightarrow> Some p
      | None \<Rightarrow> if k \<noteq> [] then find (\<lambda>q. page_key q = Some k) ps else None)"
proof (induction ps arbitrary: seen)
  case Nil
  show ?case by (simp split: option.splits)
next
  case (Cons p ps)
  show ?case
  proof (cases "page_key p")
    case None
    then show ?thesis using Cons.IH [of seen] by (auto split: option.splits)
  next
    case (Some key)
    show ?thesis
    proof (cases "key \<noteq> [] \<and> \<not> map_has seen key")
      case True
      then show ?thesis
        using Some Cons.IH [of "map_set seen key p"]
        by (auto simp: map_set_def map_has_def update_conv' split: option.splits)
    next
      case False
      then show ?thesis
        using Some Cons.IH [of seen]
        by (auto simp: map_has_def split: option.splits)
    qed
  qed
qed




lemma removeDuplicates_mem:
  "p \<in> set (removeDuplicates ps) \<longleftrightarrow>
     (\<exists>k. k \<noteq> [] \<and> find (\<lambda>q. page_key q = Some k) ps = Some p)"
proof -
  let ?m = "removeDuplicates_loop [] ps"
  have d: "distinct (map fst ?m)" by (rule loop_distinct) simp
  have "p \<in> set (removeDuplicates ps) \<longleftrightarrow> (\<exists>k. map_of ?m k = Some p)"
    using d by (force simp: removeDuplicates_def map_values_def dest: map_of_SomeD)
  then show ?thesis
    by (auto simp: loop_map_of split: if_splits)
qed

lemma find_key:
  "find (\<lambda>q. page_key q = Some k) ps = Some p \<Longrightarrow> page_key p = Some k \<and> p \<in> set ps"
  by (auto simp: find_Some_iff)

lemma removeDuplicates_distinct_keys: "distinct (map page_key (removeDuplicates ps))"
proof -
  let ?m = "removeDuplicates_loop [] ps"
  have d: "distinct (map fst ?m)" by (rule loop_distinct) simp
  have "\<forall>(k, p) \<in> set ?m. page_key p = Some k"
  proof (clarify)
    fix k p assume "(k, p) \<in> set ?m"
    then have "map_of ?m k = Some p" using d by simp
    then show "page_key p = Some k"
      by (auto simp: loop_map_of split: if_splits dest: find_key)
  qed
  then have "map page_key (map snd ?m) = map Some (map fst ?m)"
    by (induction ?m) auto
  moreover have "distinct (map Some (map fst ?m))"
    using d by (simp only: distinct_map inj_on_def) auto
  ultimately show ?thesis
    by (simp only: removeDuplicates_def map_values_def)
qed

lemma removeDuplicates_keyed:
  "p \<in> set (removeDuplicates ps) \<Longrightarrow> truthy (page_key p) \<and> p \<in> set ps"
  by (auto simp: removeDuplicates_mem truthy_def dest: find_key)




lemma loop_drop_keyless:
  "removeDuplicates_loop seen
     (filter (\<lambda>p. \<not> (node_token p = None \<and> obj_token p = None)) pages) =
   removeDuplicates_loop seen pages"
  by (induction pages arbitrary: seen)
     (auto simp: page_key_def js_or_def truthy_def split: option.splits)

text \<open>
  Claim C10. An item with neither \<open>node_token\<close> nor \<open>obj_token\<close> is never among the
  pages \<open>removeDuplicates\<close> returns, and the result is the one the list without such
  items gives: the item is dropped and nothing else changes.
\<close>

theorem keyless_items_dropped:
  "(\<forall>p. node_token p = None \<and> obj_token p = None \<longrightarrow> p \<notin> set (removeDuplicates pages))
   \<and> removeDuplicates pages =
       removeDuplicates (filter (\<lambda>p. \<not> (node_token p = None \<and> obj_token p = None)) pages)"
proof -
  have "p \<notin> set (removeDuplicates pages)" if "node_token p = None \<and> obj_token p = None" for p
    using that removeDuplicates_keyed [of p pages]
    by (auto simp: page_key_def js_or_def truthy_def)
  moreover have "removeDuplicates pages =
      removeDuplicates (filter (\<lambda>p. \<not> (node_token p = None \<and> obj_token p = None)) pages)"
    by (simp only: removeDuplicates_def loop_drop_keyless)
  ultimately show ?thesis by blast
qed

theorem keyless_items_dropped_witness:
  "node_token page_N = None \<and> obj_token page_N = None
   \<and> page_N \<notin> set (removeDuplicates [page_A, page_N, page_B])
   \<and> removeDuplicates [page_A, page_N, page_B] = removeDuplicates [page_A, page_B]"
proof -
  have n: "node_token page_N = None \<and> obj_token page_N = None"
    by (simp add: page_N_def)
  have f: "filter (\<lambda>p. \<not> (node_token p = None \<and> obj_token p = None))
      [page_A, page_N, page_B] = [page_A, page_B]"
    by (simp add: page_N_def page_A_def page_B_def)
  from keyless_items_dropped [of "[page_A, page_N, page_B]"]
  have a: "\<forall>p. node_token p = None \<and> obj_token p = None \<longrightarrow>
      p \<notin> set (removeDuplicates [page_A, page_N, page_B])"
    and b: "removeDuplicates [page_A, page_N, page_B] =
      removeDuplicates (filter (\<lambda>p. \<not> (node_token p = None \<and> obj_token p = None))
        [page_A, page_N, page_B])"
    by blast+
  show ?thesis using a n b unfolding f by blast
qed

section \<open>The reconciler\<close>

lemma proj_Nil:
  "attempts [] = []" "topics_done [] = []" "item_failures [] = []" "create_failures [] = []"
  by (simp_all add: attempts_def topics_done_def item_failures_def create_failures_def)

lemma proj_append:
  "attempts (xs @ ys) = attempts xs @ attempts ys"
  "topics_done (xs @ ys) = topics_done xs @ topics_done ys"
  "item_failures (xs @ ys) = item_failures xs @ item_failures ys"
  "create_failures (xs @ ys) = create_failures xs @ create_failures ys"
  by (simp_all add: attempts_def topics_done_def item_failures_def create_failures_def)

lemma proj_Cons:
  "attempts (l # ls) = (case l of LogCreatingShortcut t i \<Rightarrow> [(t, i)] | _ \<Rightarrow> []) @ attempts ls"
  "topics_done (l # ls) = (case l of LogTopicDone n c k \<Rightarrow> [n] | _ \<Rightarrow> []) @ topics_done ls"
  "item_failures (l # ls) = (case l of ErrItemFailed t e \<Rightarrow> [(t, e)] | _ \<Rightarrow> []) @ item_failures ls"
  "create_failures (l # ls) = (case l of ErrCreateShortcut e \<Rightarrow> [e] | _ \<Rightarrow> []) @ create_failures ls"
  by (simp_all add: attempts_def topics_done_def item_failures_def create_failures_def)

lemma search_lines_silent:
  "list_all search_line out \<Longrightarrow>
   attempts out = [] \<and> topics_done out = [] \<and> item_failures out = [] \<and> create_failures out = []"
proof (induction out)
  case Nil
  show ?case by (simp add: proj_Nil)
next
  case (Cons l out)
  then show ?case by (cases l) (simp_all add: proj_Cons)
qed

lemma quiet_refl: "quiet s s"
  by (simp add: quiet_def)

lemma quiet_trans: "quiet s s' \<Longrightarrow> quiet s' s'' \<Longrightarrow> quiet s s''"
  by (fastforce simp: quiet_def)

lemma quiet_print: "search_line l \<Longrightarrow> quiet s (print l s)"
  by (simp add: quiet_def print_def)

lemma quiet_searchWiki: "quiet s (snd (searchWiki E space keyword s))"
  by (simp add: quiet_def searchWiki_def Let_def split: option.splits prod.splits sum.splits)

lemma quiet_collect_keywords:
  "quiet (snd acc) (snd (collect_keywords E test topic wiki kws acc))"
proof (induction kws arbitrary: acc)
  case Nil
  show ?case by (simp add: quiet_refl)
next
  case (Cons kw kws)
  obtain allPages s where acc: "acc = (allPages, s)" by (cases acc)
  obtain r s1 where sw: "searchWiki E (wikiSpaceId wiki) kw s = (r, s1)" by force
  have q1: "quiet s s1" using quiet_searchWiki [of s E "wikiSpaceId wiki" kw] sw by simp
  show ?case
  proof (cases r)
    case (Inl e)
    have "quiet s1 (print (ErrSearching kw e) s1)" by (simp add: quiet_print)
    with q1 have "quiet s (print (ErrSearching kw e) s1)" by (rule quiet_trans)
    moreover have "quiet (print (ErrSearching kw e) s1)
        (snd (collect_keywords E test topic wiki kws (allPages, print (ErrSearching kw e) s1)))"
      using Cons.IH [of "(allPages, print (ErrSearching kw e) s1)"] by simp
    ultimately show ?thesis
      using acc sw Inl by (auto intro: quiet_trans)
  next
    case (Inr hits)
    obtain f tb where fr: "filterResults test hits topic (regexps s1) = (f, tb)" by force
    let ?s1 = "s1\<lparr>regexps := tb\<rparr>"
    have q2: "quiet s ?s1" using q1 by (simp add: quiet_def)
    show ?thesis
    proof (cases f)
      case (Inl e)
      let ?s2 = "print (ErrSearching kw e) ?s1"
      have "quiet ?s1 ?s2" by (simp add: quiet_print)
      with q2 have "quiet s ?s2" by (rule quiet_trans)
      moreover have "quiet ?s2 (snd (collect_keywords E test topic wiki kws (allPages, ?s2)))"
        using Cons.IH [of "(allPages, ?s2)"] by simp
      ultimately show ?thesis
        using acc sw \<open>r = Inr hits\<close> fr Inl by (auto intro: quiet_trans)
    next
      case (Inr kept)
      let ?s2 = "print (LogFound (length kept) kw) ?s1"
      have "quiet ?s1 ?s2" by (simp add: quiet_print)
      with q2 have "quiet s ?s2" by (rule quiet_trans)
      moreover have "quiet ?s2 (snd (collect_keywords E test topic wiki kws (allPages @ kept, ?s2)))"
        using Cons.IH [of "(allPages @ kept, ?s2)"] by simp
      ultimately show ?thesis
        using acc sw \<open>r = Inr hits\<close> fr Inr by (auto intro: quiet_trans)
    qed
  qed
qed

lemma quiet_collect_wikis:
  "quiet (snd acc) (snd (collect_wikis E test topic ws acc))"
proof (induction ws arbitrary: acc)
  case Nil
  show ?case by (simp add: quiet_refl)
next
  case (Cons w ws)
  obtain allPages s where acc: "acc = (allPages, s)" by (cases acc)
  show ?case
  proof (cases "searchEnabled w")
    case False
    then show ?thesis using Cons.IH [of acc] acc by simp
  next
    case True
    let ?s1 = "print (LogSearchingIn (spaceName w)) s"
    let ?a = "collect_keywords E test topic w (topic_keywords topic) (allPages, ?s1)"
    have "quiet s ?s1" by (simp add: quiet_print)
    moreover have "quiet ?s1 (snd ?a)"
      using quiet_collect_keywords [of "(allPages, ?s1)"] by simp
    moreover have "quiet (snd ?a) (snd (collect_wikis E test topic ws ?a))"
      by (rule Cons.IH)
    ultimately show ?thesis
      using acc True by (auto intro: quiet_trans)
  qed
qed

lemma quiet_collectTopicPages: "quiet s (snd (collectTopicPages E test topic s))"
proof -
  let ?s0 = "print (LogCollecting (topic_name topic)) s"
  let ?g = "collect_wikis E test topic (wikis s) ([], ?s0)"
  have "quiet s ?s0" by (simp add: quiet_print)
  moreover have "quiet ?s0 (snd ?g)" using quiet_collect_wikis [of "([], ?s0)"] by simp
  moreover have "quiet (snd ?g) (print (LogTotalUnique (length (removeDuplicates (fst ?g)))) (snd ?g))"
    by (simp add: quiet_print)
  ultimately have "quiet s (print (LogTotalUnique (length (removeDuplicates (fst ?g)))) (snd ?g))"
    by (blast intro: quiet_trans)
  then show ?thesis
    by (auto simp: collectTopicPages_def gatherTopicPages_def Let_def split: prod.splits)
qed


lemma linked_targets_mono:
  "set (records s) \<subseteq> set (records s') \<Longrightarrow>
   set (linked_targets i s) \<subseteq> set (linked_targets i s')"
  by (auto simp: linked_targets_def)

lemma pass_seg_trans:
  assumes a: "pass_seg i ex c1 n1 s s'" and b: "pass_seg i ex c2 n2 s' s''"
  shows "pass_seg i ex (c1 @ c2) (n1 @ n2) s s''"
proof -
  from a obtain o1 where o1: "console s' = console s @ o1"
      "attempts o1 = map (\<lambda>p. (page_key p, i)) (filter (\<lambda>p. page_key p \<notin> ex) c1)"
      "topics_done o1 = n1" "map snd (item_failures o1) = create_failures o1"
      "item_failures o1 = [] \<longrightarrow>
         (\<forall>p \<in> set c1. page_key p \<in> ex \<or> page_key p \<in> set (linked_targets i s'))"
    unfolding pass_seg_def by blast
  from b obtain o2 where o2: "console s'' = console s' @ o2"
      "attempts o2 = map (\<lambda>p. (page_key p, i)) (filter (\<lambda>p. page_key p \<notin> ex) c2)"
      "topics_done o2 = n2" "map snd (item_failures o2) = create_failures o2"
      "item_failures o2 = [] \<longrightarrow>
         (\<forall>p \<in> set c2. page_key p \<in> ex \<or> page_key p \<in> set (linked_targets i s''))"
    unfolding pass_seg_def by blast
  have r: "set (records s) \<subseteq> set (records s')" "set (records s') \<subseteq> set (records s'')"
    using a b unfolding pass_seg_def by blast+
  have m: "set (linked_targets i s') \<subseteq> set (linked_targets i s'')"
    by (rule linked_targets_mono [OF r(2)])
  have "console s'' = console s @ (o1 @ o2)" using o1(1) o2(1) by simp
  moreover have "attempts (o1 @ o2) =
      map (\<lambda>p. (page_key p, i)) (filter (\<lambda>p. page_key p \<notin> ex) (c1 @ c2))"
    using o1(2) o2(2) by (simp add: proj_append)
  moreover have "topics_done (o1 @ o2) = n1 @ n2" using o1(3) o2(3) by (simp add: proj_append)
  moreover have "map snd (item_failures (o1 @ o2)) = create_failures (o1 @ o2)"
    using o1(4) o2(4) by (simp add: proj_append)
  moreover have "item_failures (o1 @ o2) = [] \<longrightarrow>
      (\<forall>p \<in> set (c1 @ c2). page_key p \<in> ex \<or> page_key p \<in> set (linked_targets i s''))"
    using o1(5) o2(5) m by (auto simp: proj_append)
  moreover have "wikis s'' = wikis s" "indexPages s'' = indexPages s"
    using a b unfolding pass_seg_def by simp_all
  moreover have "set (records s) \<subseteq> set (records s'')" using r by blast
  moreover have "(\<forall>p \<in> set (c1 @ c2). page_key p \<in> ex) \<longrightarrow> shortcuts s'' = shortcuts s"
    using a b unfolding pass_seg_def by auto
  moreover have "distinct (map fst (shortcuts s)) \<longrightarrow> distinct (map fst (shortcuts s''))"
    using a b unfolding pass_seg_def by blast
  ultimately show ?thesis unfolding pass_seg_def by blast
qed

lemma quiet_pass_seg: "quiet s s' \<Longrightarrow> pass_seg i ex [] [] s s'"
  unfolding quiet_def pass_seg_def
  by (auto simp: records_def dest: search_lines_silent)

lemma pass_seg_print_topic:
  "pass_seg i ex [] [] s (print (LogProcessingTopic n) s)"
  "pass_seg i ex [] [n] s (print (LogTopicDone n c k) s)"
  unfolding pass_seg_def by (simp_all add: print_def records_def proj_Cons proj_Nil)

lemma createShortcut_console:
  "wikis (snd (createShortcut E i t sp s)) = wikis s
   \<and> indexPages (snd (createShortcut E i t sp s)) = indexPages s
   \<and> shortcuts (snd (createShortcut E i t sp s)) = shortcuts s
   \<and> console (snd (createShortcut E i t sp s)) =
       console s @ [LogCreatingShortcut t i,
         (case fst (createShortcut E i t sp s) of
            Inr n \<Rightarrow> LogShortcutCreated (created_node_token n)
          | Inl e \<Rightarrow> ErrCreateShortcut e)]"
  by (simp add: createShortcut_def Let_def print_def split: option.splits prod.splits sum.splits)

lemma records_record_shortcut:
  "set (concat (map snd (record_shortcut t r m))) = insert r (set (concat (map snd m)))"
proof (induction m)
  case Nil
  show ?case by (simp add: record_shortcut_def map_get_def map_set_def)
next
  case (Cons e m)
  then show ?case
    by (cases e) (auto simp: record_shortcut_def map_get_def map_set_def split: option.splits)
qed

lemma pass_seg_process_page:
  "pass_seg i ex [pg] [] s (fst (process_page E i ip topic ex pg (s, c, k)))"
proof (cases "page_key pg \<in> ex")
  case True
  then show ?thesis
    by (simp add: process_page_def page_key_def pass_seg_def proj_Nil)
next
  case False
  let ?sp = "js_or (space_id pg) (Some (spaceId ip))"
  let ?c = "createShortcut E i (page_key pg) ?sp s"
  note cs = createShortcut_console [of E i "page_key pg" ?sp s]
  show ?thesis
  proof (cases "fst ?c")
    case (Inl e)
    have res: "fst (process_page E i ip topic ex pg (s, c, k)) =
        print (ErrItemFailed (title pg) e) (snd ?c)"
      using False Inl by (auto simp: process_page_def page_key_def Let_def split: prod.splits)
    have "console (print (ErrItemFailed (title pg) e) (snd ?c)) =
        console s @ [LogCreatingShortcut (page_key pg) i, ErrCreateShortcut e,
          ErrItemFailed (title pg) e]"
      using cs Inl by (simp add: print_def)
    then show ?thesis
      unfolding res pass_seg_def using cs False
      by (simp add: print_def records_def proj_Cons proj_Nil)
  next
    case (Inr n)
    let ?info = "\<lparr>targetNodeToken = page_key pg, targetTitle = title pg,
        targetSpaceId = ?sp, indexNodeToken = i, topicId = topic_id topic,
        createdAt = now E (world (snd ?c)), matchedKeywords = topic_keywords topic\<rparr>"
    let ?s2 = "(snd ?c)\<lparr>shortcuts := record_shortcut (page_key pg) ?info (shortcuts (snd ?c))\<rparr>"
    have res: "fst (process_page E i ip topic ex pg (s, c, k)) = delay E 500 ?s2"
      using False Inr by (auto simp: process_page_def page_key_def Let_def split: prod.splits)
    have con: "console (delay E 500 ?s2) =
        console s @ [LogCreatingShortcut (page_key pg) i, LogShortcutCreated (created_node_token n)]"
      using cs Inr by (simp add: delay_def)
    have rec: "set (records (delay E 500 ?s2)) = insert ?info (set (records s))"
      using cs records_record_shortcut [of "page_key pg" ?info "shortcuts s"]
      by (simp add: delay_def records_def)
    have lnk: "page_key pg \<in> set (linked_targets i (delay E 500 ?s2))"
      unfolding linked_targets_def using rec by force
    have dst: "distinct (map fst (shortcuts s)) \<longrightarrow>
        distinct (map fst (shortcuts (delay E 500 ?s2)))"
      using cs
      by (simp add: delay_def record_shortcut_def map_set_def distinct_update split: option.splits)
    show ?thesis
      unfolding res pass_seg_def using cs False con rec lnk dst
      by (auto simp: delay_def proj_Cons proj_Nil)
  qed
qed


lemma pass_seg_process_pages:
  "pass_seg i ex pages [] (fst acc) (fst (process_pages E i ip topic ex pages acc))"
proof (induction pages arbitrary: acc)
  case Nil
  show ?case by (simp add: quiet_pass_seg quiet_refl)
next
  case (Cons pg pages)
  obtain s c k where acc: "acc = (s, c, k)" by (cases acc)
  let ?a = "process_page E i ip topic ex pg (s, c, k)"
  have "pass_seg i ex ([pg] @ pages) ([] @ []) s (fst (process_pages E i ip topic ex pages ?a))"
    by (rule pass_seg_trans [OF pass_seg_process_page Cons.IH])
  then show ?case by (simp add: acc)
qed

lemma process_topic_unfold:
  "process_topic E test i ip ex topic s =
     print (LogTopicDone (topic_name topic)
        (fst (snd (process_pages E i ip topic ex
           (fst (collectTopicPages E test topic (print (LogProcessingTopic (topic_name topic)) s)))
           (snd (collectTopicPages E test topic (print (LogProcessingTopic (topic_name topic)) s)),
            0, 0))))
        (snd (snd (process_pages E i ip topic ex
           (fst (collectTopicPages E test topic (print (LogProcessingTopic (topic_name topic)) s)))
           (snd (collectTopicPages E test topic (print (LogProcessingTopic (topic_name topic)) s)),
            0, 0)))))
      (fst (process_pages E i ip topic ex
         (fst (collectTopicPages E test topic (print (LogProcessingTopic (topic_name topic)) s)))
         (snd (collectTopicPages E test topic (print (LogProcessingTopic (topic_name topic)) s)),
          0, 0)))"
  by (simp add: process_topic_def split: prod.splits)

lemma pass_seg_process_topic:
  "pass_seg i ex
     (fst (collectTopicPages E test topic (print (LogProcessingTopic (topic_name topic)) s)))
     [topic_name topic] s (process_topic E test i ip ex topic s)"
proof -
  let ?s0 = "print (LogProcessingTopic (topic_name topic)) s"
  let ?c = "collectTopicPages E test topic ?s0"
  let ?p = "process_pages E i ip topic ex (fst ?c) (snd ?c, 0, 0)"
  have 1: "pass_seg i ex [] [] s ?s0" by (rule pass_seg_print_topic)
  have 2: "pass_seg i ex [] [] ?s0 (snd ?c)"
    by (rule quiet_pass_seg [OF quiet_collectTopicPages])
  have 3: "pass_seg i ex (fst ?c) [] (snd ?c) (fst ?p)"
    using pass_seg_process_pages [of i ex "fst ?c" "(snd ?c, 0, 0)"] by simp
  have 4: "pass_seg i ex [] [topic_name topic] (fst ?p)
      (print (LogTopicDone (topic_name topic) (fst (snd ?p)) (snd (snd ?p))) (fst ?p))"
    by (rule pass_seg_print_topic)
  from pass_seg_trans [OF pass_seg_trans [OF pass_seg_trans [OF 1 2] 3] 4]
  show ?thesis by (simp add: process_topic_unfold)
qed

lemma pass_seg_process_topics:
  "pass_seg i ex (pass_candidates E test i ip ex ts s) (map topic_name ts) s
     (process_topics E test i ip ex ts s)"
proof (induction ts arbitrary: s)
  case Nil
  show ?case by (simp add: quiet_pass_seg quiet_refl)
next
  case (Cons topic ts)
  from pass_seg_trans [OF pass_seg_process_topic Cons.IH]
  show ?case by simp
qed

lemma getExistingShortcuts_frame:
  "wikis (snd (getExistingShortcuts E i s)) = wikis s
   \<and> indexPages (snd (getExistingShortcuts E i s)) = indexPages s
   \<and> shortcuts (snd (getExistingShortcuts E i s)) = shortcuts s
   \<and> console (snd (getExistingShortcuts E i s)) = console s"
  by (simp add: getExistingShortcuts_def split: option.splits prod.splits sum.splits)

lemma updateIndexPage_unfold:
  assumes "map_get (indexPages s) i = Some ip"
    and "fst (getExistingShortcuts E i (print (LogUpdating (indexTitle ip)) s)) = Inr nodes"
  shows "updateIndexPage E test i s =
     (Inr (), print (LogUpdateCompleted (indexTitle ip))
        (process_topics E test i ip (set (map origin_node_token nodes)) (topics ip)
           (snd (getExistingShortcuts E i (print (LogUpdating (indexTitle ip)) s)))))"
  using assms by (auto simp: updateIndexPage_def Let_def split: prod.splits sum.splits)

lemma printed_append: "console s' = console s @ out \<Longrightarrow> printed s s' = out"
  by (simp add: printed_def)

text \<open>What a whole pass does, from the stretch between the listing and the last line.\<close>

lemma pass_summary:
  assumes ip: "map_get (indexPages s) i = Some ip"
    and ls: "fst (getExistingShortcuts E i (print (LogUpdating (indexTitle ip)) s)) = Inr nodes"
  shows "\<exists>out. printed s (snd (updateIndexPage E test i s)) =
            LogUpdating (indexTitle ip) # out @ [LogUpdateCompleted (indexTitle ip)]
       \<and> pass_seg i (set (map origin_node_token nodes))
           (pass_candidates E test i ip (set (map origin_node_token nodes)) (topics ip)
              (snd (getExistingShortcuts E i (print (LogUpdating (indexTitle ip)) s))))
           (map topic_name (topics ip))
           (snd (getExistingShortcuts E i (print (LogUpdating (indexTitle ip)) s)))
           (process_topics E test i ip (set (map origin_node_token nodes)) (topics ip)
              (snd (getExistingShortcuts E i (print (LogUpdating (indexTitle ip)) s))))
       \<and> console (process_topics E test i ip (set (map origin_node_token nodes)) (topics ip)
              (snd (getExistingShortcuts E i (print (LogUpdating (indexTitle ip)) s)))) =
           console (snd (getExistingShortcuts E i (print (LogUpdating (indexTitle ip)) s))) @ out
       \<and> shortcuts (snd (updateIndexPage E test i s)) =
           shortcuts (process_topics E test i ip (set (map origin_node_token nodes)) (topics ip)
              (snd (getExistingShortcuts E i (print (LogUpdating (indexTitle ip)) s))))"
proof -
  let ?s1 = "snd (getExistingShortcuts E i (print (LogUpdating (indexTitle ip)) s))"
  let ?ex = "set (map origin_node_token nodes)"
  let ?s2 = "process_topics E test i ip ?ex (topics ip) ?s1"
  have seg: "pass_seg i ?ex (pass_candidates E test i ip ?ex (topics ip) ?s1)
      (map topic_name (topics ip)) ?s1 ?s2"
    by (rule pass_seg_process_topics)
  then obtain out where out: "console ?s2 = console ?s1 @ out"
    unfolding pass_seg_def by blast
  have c1: "console ?s1 = console s @ [LogUpdating (indexTitle ip)]"
    using getExistingShortcuts_frame [of E i "print (LogUpdating (indexTitle ip)) s"]
    by (simp add: print_def)
  have "console (snd (updateIndexPage E test i s)) =
      console s @ (LogUpdating (indexTitle ip) # out @ [LogUpdateCompleted (indexTitle ip)])"
    using out c1 by (simp add: updateIndexPage_unfold [OF ip ls] print_def)
  then have "printed s (snd (updateIndexPage E test i s)) =
      LogUpdating (indexTitle ip) # out @ [LogUpdateCompleted (indexTitle ip)]"
    by (rule printed_append)
  moreover have "shortcuts (snd (updateIndexPage E test i s)) = shortcuts ?s2"
    by (simp add: updateIndexPage_unfold [OF ip ls] print_def)
  ultimately show ?thesis using seg out by blast
qed

text \<open>
  Claim C7. A pass over a registered index document whose listing succeeded never ends in
  an error, whatever the creations do. It starts exactly one creation for every candidate
  of every topic that is not linked yet, in the order of the topics and of the candidates,
  so a failed creation skips neither the remaining candidates nor the remaining topics;
  it finishes every topic of the page; and every failed creation is printed once more for
  its item, by the \<open>catch\<close> of the loop.
\<close>

theorem item_failure_isolated:
  assumes ip: "map_get (indexPages s) i = Some ip"
    and ls: "fst (getExistingShortcuts E i (print (LogUpdating (indexTitle ip)) s)) = Inr nodes"
  shows "fst (updateIndexPage E test i s) = Inr ()
     \<and> attempts (printed s (snd (updateIndexPage E test i s))) =
         map (\<lambda>p. (page_key p, i))
           (filter (\<lambda>p. page_key p \<notin> set (map origin_node_token nodes))
              (pass_candidates E test i ip (set (map origin_node_token nodes)) (topics ip)
                 (snd (getExistingShortcuts E i (print (LogUpdating (indexTitle ip)) s)))))
     \<and> topics_done (printed s (snd (updateIndexPage E test i s))) = map topic_name (topics ip)
     \<and> map snd (item_failures (printed s (snd (updateIndexPage E test i s)))) =
         create_failures (printed s (snd (updateIndexPage E test i s)))"
proof -
  let ?s1 = "snd (getExistingShortcuts E i (print (LogUpdating (indexTitle ip)) s))"
  let ?ex = "set (map origin_node_token nodes)"
  let ?s2 = "process_topics E test i ip ?ex (topics ip) ?s1"
  from pass_summary [OF ip ls, of test] obtain out where
    p: "printed s (snd (updateIndexPage E test i s)) =
          LogUpdating (indexTitle ip) # out @ [LogUpdateCompleted (indexTitle ip)]"
    and seg: "pass_seg i ?ex (pass_candidates E test i ip ?ex (topics ip) ?s1)
          (map topic_name (topics ip)) ?s1 ?s2"
    and out: "console ?s2 = console ?s1 @ out"
    by blast
  from seg out have
    "attempts out = map (\<lambda>p. (page_key p, i))
        (filter (\<lambda>p. page_key p \<notin> ?ex) (pass_candidates E test i ip ?ex (topics ip) ?s1))"
    "topics_done out = map topic_name (topics ip)"
    "map snd (item_failures out) = create_failures out"
    unfolding pass_seg_def by auto
  then show ?thesis
    unfolding p by (simp add: updateIndexPage_unfold [OF ip ls] proj_Cons proj_append proj_Nil)
qed

theorem item_failure_isolated_witness:
  "fst (updateIndexPage sample_env plain_test ''IDX'' (sample_manager [topic_foo, topic_bar] 1)) =
     Inr ()
   \<and> attempts (printed (sample_manager [topic_foo, topic_bar] 1) faulty_run) =
       [(Some ''A'', ''IDX''), (Some ''B'', ''IDX''), (Some ''A'', ''IDX'')]
   \<and> topics_done (printed (sample_manager [topic_foo, topic_bar] 1) faulty_run) =
       [''Foo'', ''Bar'']
   \<and> item_failures (printed (sample_manager [topic_foo, topic_bar] 1) faulty_run) =
       [(Some ''Foo doc'', Error ''rate limited'')]
   \<and> create_failures (printed (sample_manager [topic_foo, topic_bar] 1) faulty_run) =
       [Error ''rate limited'']
   \<and> map (\<lambda>e. (fst e, map topicId (snd e))) (shortcuts faulty_run) =
       [(Some ''B'', [''t-foo'']), (Some ''A'', [''t-bar''])]"
proof -
  let ?s = "sample_manager [topic_foo, topic_bar] 1"
  let ?ip = "sample_index [topic_foo, topic_bar]"
  have h1: "map_get (indexPages ?s) ''IDX'' = Some ?ip"
    by (simp add: sample_manager_def map_get_def)
  have h2: "fst (getExistingShortcuts sample_env ''IDX'' (print (LogUpdating (indexTitle ?ip)) ?s))
      = Inr []"
    by code_simp
  have c: "pass_candidates sample_env plain_test ''IDX'' ?ip (set (map origin_node_token []))
      (topics ?ip)
      (snd (getExistingShortcuts sample_env ''IDX'' (print (LogUpdating (indexTitle ?ip)) ?s))) =
      [page_A, page_B, page_A2]"
    by code_simp
  have k: "page_key page_A = Some ''A''" "page_key page_B = Some ''B''"
    "page_key page_A2 = Some ''A''"
    by code_simp+
  have t: "map topic_name (topics ?ip) = [''Foo'', ''Bar'']"
    by code_simp
  have f: "item_failures (printed ?s faulty_run) = [(Some ''Foo doc'', Error ''rate limited'')]"
    by code_simp
  have r: "map (\<lambda>e. (fst e, map topicId (snd e))) (shortcuts faulty_run) =
       [(Some ''B'', [''t-foo'']), (Some ''A'', [''t-bar''])]"
    by code_simp
  from item_failure_isolated [OF h1 h2, of plain_test] f r
  show ?thesis
    unfolding c t by (simp add: k faulty_run_def)
qed

section \<open>Statistics and repeated passes\<close>

lemma fold_count_topic:
  "duplicatePages (fold count_topic infos st) = duplicatePages st
   \<and> totalShortcuts (fold count_topic infos st) = totalShortcuts st"
  by (induction infos arbitrary: st) (simp_all add: count_topic_def Let_def)

lemma fold_stats_entry:
  "duplicatePages (fold stats_entry m st) =
     duplicatePages st @ map fst (filter (\<lambda>e. 1 < length (snd e)) m)
   \<and> totalShortcuts (fold stats_entry m st) =
     totalShortcuts st + sum_list (map (\<lambda>e. length (snd e)) m)"
  by (induction m arbitrary: st)
     (auto simp: stats_entry_def Let_def fold_count_topic split: prod.splits)

lemma duplicatePages_eq:
  "duplicatePages (getStatistics s) = map fst (filter (\<lambda>e. 1 < length (snd e)) (shortcuts s))"
  by (simp add: getStatistics_def fold_stats_entry)

lemma totalShortcuts_eq:
  "totalShortcuts (getStatistics s) = sum_list (map (\<lambda>e. length (snd e)) (shortcuts s))"
  by (simp add: getStatistics_def fold_stats_entry)

text \<open>
  Claim C2, as the code has it. A first pass ran with no item failure. The listing of the
  second pass reports every link that the first listing reported and every link that is
  recorded for the index document, and every candidate of the second pass was a candidate
  of the first. Then the second pass starts no creation, adds no record and leaves
  \<open>totalShortcuts\<close> as it was.
\<close>

theorem second_run_creates_nothing:
  assumes ip: "map_get (indexPages s0) i = Some ip"
    and ls1: "fst (getExistingShortcuts E i (print (LogUpdating (indexTitle ip)) s0)) = Inr nodes1"
    and s1: "s1 = snd (updateIndexPage E test i s0)"
    and ls2: "fst (getExistingShortcuts E i (print (LogUpdating (indexTitle ip)) s1)) = Inr nodes2"
    and nofail: "item_failures (printed s0 s1) = []"
    and listed: "set (map origin_node_token nodes1) \<union> set (linked_targets i s1)
        \<subseteq> set (map origin_node_token nodes2)"
    and same: "page_key ` set (pass_candidates E test i ip (set (map origin_node_token nodes2))
          (topics ip) (snd (getExistingShortcuts E i (print (LogUpdating (indexTitle ip)) s1))))
        \<subseteq> page_key ` set (pass_candidates E test i ip (set (map origin_node_token nodes1))
          (topics ip) (snd (getExistingShortcuts E i (print (LogUpdating (indexTitle ip)) s0))))"
  shows "fst (updateIndexPage E test i s1) = Inr ()
     \<and> attempts (printed s1 (snd (updateIndexPage E test i s1))) = []
     \<and> shortcuts (snd (updateIndexPage E test i s1)) = shortcuts s1
     \<and> totalShortcuts (getStatistics (snd (updateIndexPage E test i s1))) =
         totalShortcuts (getStatistics s1)"
proof -
  let ?ex1 = "set (map origin_node_token nodes1)"
  let ?ex2 = "set (map origin_node_token nodes2)"
  let ?a1 = "snd (getExistingShortcuts E i (print (LogUpdating (indexTitle ip)) s0))"
  let ?a2 = "snd (getExistingShortcuts E i (print (LogUpdating (indexTitle ip)) s1))"
  let ?c1 = "pass_candidates E test i ip ?ex1 (topics ip) ?a1"
  let ?c2 = "pass_candidates E test i ip ?ex2 (topics ip) ?a2"
  let ?e1 = "process_topics E test i ip ?ex1 (topics ip) ?a1"
  let ?e2 = "process_topics E test i ip ?ex2 (topics ip) ?a2"
  from pass_summary [OF ip ls1, of test] obtain out1 where
    p1: "printed s0 s1 = LogUpdating (indexTitle ip) # out1 @ [LogUpdateCompleted (indexTitle ip)]"
    and seg1: "pass_seg i ?ex1 ?c1 (map topic_name (topics ip)) ?a1 ?e1"
    and out1: "console ?e1 = console ?a1 @ out1"
    and sh1: "shortcuts s1 = shortcuts ?e1"
    unfolding s1 by blast
  have nf: "item_failures out1 = []"
    using nofail unfolding p1 by (simp add: proj_Cons proj_append proj_Nil)
  have "\<forall>p \<in> set ?c1. page_key p \<in> ?ex1 \<or> page_key p \<in> set (linked_targets i ?e1)"
    using seg1 out1 nf unfolding pass_seg_def by auto
  moreover have "linked_targets i ?e1 = linked_targets i s1"
    by (simp add: linked_targets_def records_def sh1)
  ultimately have c1: "\<forall>p \<in> set ?c1. page_key p \<in> ?ex2"
    using listed by (simp only: Un_subset_iff) blast
  have c2: "\<forall>p \<in> set ?c2. page_key p \<in> ?ex2"
  proof
    fix p assume "p \<in> set ?c2"
    then have "page_key p \<in> page_key ` set ?c1" using same by blast
    then show "page_key p \<in> ?ex2" using c1 by auto
  qed
  have ip1: "map_get (indexPages s1) i = Some ip"
  proof -
    have "indexPages ?e1 = indexPages ?a1" using seg1 unfolding pass_seg_def by simp
    moreover have "indexPages ?a1 = indexPages s0"
      using getExistingShortcuts_frame [of E i "print (LogUpdating (indexTitle ip)) s0"]
      by (simp add: print_def)
    ultimately show ?thesis
      using ip by (simp add: s1 updateIndexPage_unfold [OF ip ls1] print_def)
  qed
  from pass_summary [OF ip1 ls2, of test] obtain out2 where
    p2: "printed s1 (snd (updateIndexPage E test i s1)) =
          LogUpdating (indexTitle ip) # out2 @ [LogUpdateCompleted (indexTitle ip)]"
    and seg2: "pass_seg i ?ex2 ?c2 (map topic_name (topics ip)) ?a2 ?e2"
    and out2: "console ?e2 = console ?a2 @ out2"
    and sh2: "shortcuts (snd (updateIndexPage E test i s1)) = shortcuts ?e2"
    by blast
  have "filter (\<lambda>p. page_key p \<notin> ?ex2) ?c2 = []"
    using c2 by (simp add: filter_empty_conv)
  then have a2: "attempts out2 = []"
    using seg2 out2 unfolding pass_seg_def by auto
  have "shortcuts ?e2 = shortcuts ?a2"
    using seg2 c2 unfolding pass_seg_def by blast
  moreover have "shortcuts ?a2 = shortcuts s1"
    using getExistingShortcuts_frame [of E i "print (LogUpdating (indexTitle ip)) s1"]
    by (simp add: print_def)
  ultimately have sh: "shortcuts (snd (updateIndexPage E test i s1)) = shortcuts s1"
    using sh2 by simp
  have "attempts (printed s1 (snd (updateIndexPage E test i s1))) = []"
    unfolding p2 using a2 by (simp add: proj_Cons proj_append proj_Nil)
  moreover have "fst (updateIndexPage E test i s1) = Inr ()"
    by (simp add: updateIndexPage_unfold [OF ip1 ls2])
  ultimately show ?thesis
    using sh by (simp add: totalShortcuts_eq)
qed

theorem second_run_creates_nothing_witness:
  "fst (updateIndexPage sample_env plain_test ''IDX'' first_run) = Inr ()
   \<and> attempts (printed first_run (snd (updateIndexPage sample_env plain_test ''IDX'' first_run))) = []
   \<and> shortcuts (snd (updateIndexPage sample_env plain_test ''IDX'' first_run)) = shortcuts first_run
   \<and> totalShortcuts (getStatistics (snd (updateIndexPage sample_env plain_test ''IDX'' first_run))) = 3
   \<and> totalShortcuts (getStatistics first_run) = 3"
proof -
  let ?s0 = "sample_manager [topic_foo, topic_bar] 0"
  let ?ip = "sample_index [topic_foo, topic_bar]"
  let ?nodes2 = "[\<lparr>node_type = Some ''shortcut'', origin_node_token = Some ''A''\<rparr>,
      \<lparr>node_type = Some ''shortcut'', origin_node_token = Some ''B''\<rparr>,
      \<lparr>node_type = Some ''shortcut'', origin_node_token = Some ''A''\<rparr>]"
  have h1: "map_get (indexPages ?s0) ''IDX'' = Some ?ip"
    by (simp add: sample_manager_def map_get_def)
  have h2: "fst (getExistingShortcuts sample_env ''IDX'' (print (LogUpdating (indexTitle ?ip)) ?s0))
      = Inr []"
    by code_simp
  have h3: "first_run = snd (updateIndexPage sample_env plain_test ''IDX'' ?s0)"
    by (simp add: first_run_def)
  have h4: "fst (getExistingShortcuts sample_env ''IDX''
      (print (LogUpdating (indexTitle ?ip)) first_run)) = Inr ?nodes2"
    by code_simp
  have h5: "item_failures (printed ?s0 first_run) = []"
    by code_simp
  have h6: "set (map origin_node_token []) \<union> set (linked_targets ''IDX'' first_run)
      \<subseteq> set (map origin_node_token ?nodes2)"
    by code_simp
  have h7: "page_key ` set (pass_candidates sample_env plain_test ''IDX'' ?ip
        (set (map origin_node_token ?nodes2)) (topics ?ip)
        (snd (getExistingShortcuts sample_env ''IDX''
           (print (LogUpdating (indexTitle ?ip)) first_run))))
      \<subseteq> page_key ` set (pass_candidates sample_env plain_test ''IDX'' ?ip
        (set (map origin_node_token [])) (topics ?ip)
        (snd (getExistingShortcuts sample_env ''IDX''
           (print (LogUpdating (indexTitle ?ip)) ?s0))))"
    by code_simp
  have t: "totalShortcuts (getStatistics first_run) = 3"
    by code_simp
  from second_run_creates_nothing [OF h1 h2 h3 h4 h5 h6 h7] t
  show ?thesis by simp
qed

text \<open>
  Without the first condition the second pass does create: the first creation of the
  first pass fails, the pass completes, the search results stay the same, and the second
  pass creates the link and appends a record.
\<close>

theorem second_run_after_item_failure:
  "fst (updateIndexPage sample_env plain_test ''IDX'' (sample_manager [topic_foo] 1)) = Inr ()
   \<and> one_topic_faulty_run =
       snd (updateIndexPage sample_env plain_test ''IDX'' (sample_manager [topic_foo] 1))
   \<and> fst (collectTopicPages sample_env plain_test topic_foo one_topic_faulty_run) =
       fst (collectTopicPages sample_env plain_test topic_foo (sample_manager [topic_foo] 1))
   \<and> totalShortcuts (getStatistics one_topic_faulty_run) = 1
   \<and> totalShortcuts (getStatistics
         (snd (updateIndexPage sample_env plain_test ''IDX'' one_topic_faulty_run))) = 2
   \<and> attempts (printed one_topic_faulty_run
         (snd (updateIndexPage sample_env plain_test ''IDX'' one_topic_faulty_run))) =
       [(Some ''A'', ''IDX'')]"
  by code_simp

text \<open>Every pass keeps the keys of \<open>shortcuts\<close> distinct, as a \<open>Map\<close> has them.\<close>

lemma updateIndexPage_keeps_keys:
  assumes d: "distinct (map fst (shortcuts s))"
  shows "distinct (map fst (shortcuts (snd (updateIndexPage E test i s))))"
proof (cases "map_get (indexPages s) i")
  case None
  then show ?thesis using d by (simp add: updateIndexPage_def)
next
  case (Some ip)
  let ?l = "getExistingShortcuts E i (print (LogUpdating (indexTitle ip)) s)"
  have f: "shortcuts (snd ?l) = shortcuts s"
    using getExistingShortcuts_frame [of E i "print (LogUpdating (indexTitle ip)) s"]
    by (simp add: print_def)
  show ?thesis
  proof (cases "fst ?l")
    case (Inl e)
    then show ?thesis
      using Some d f by (auto simp: updateIndexPage_def split: prod.splits)
  next
    case (Inr nodes)
    from pass_summary [OF Some Inr, of test] f d show ?thesis
      unfolding pass_seg_def by auto
  qed
qed

text \<open>
  Claim C5, as the code has it. \<open>duplicatePages\<close> holds exactly the targets with more
  than one accumulated record. Where no index document occurs twice among the records of
  a target, these are the targets attached to more than one index document.
\<close>

theorem duplicatePages_counts_records:
  assumes d: "distinct (map fst (shortcuts s))"
  shows "(t \<in> set (duplicatePages (getStatistics s)) \<longleftrightarrow> 1 < length (records_of s t))
     \<and> (distinct (map indexNodeToken (records_of s t)) \<longrightarrow>
          (t \<in> set (duplicatePages (getStatistics s)) \<longleftrightarrow> 1 < length (index_documents s t)))"
proof -
  have "t \<in> set (duplicatePages (getStatistics s)) \<longleftrightarrow>
      (\<exists>infos. (t, infos) \<in> set (shortcuts s) \<and> 1 < length infos)"
    by (force simp: duplicatePages_eq)
  also have "\<dots> \<longleftrightarrow> (\<exists>infos. map_of (shortcuts s) t = Some infos \<and> 1 < length infos)"
    using d by auto
  also have "\<dots> \<longleftrightarrow> 1 < length (records_of s t)"
    by (auto simp: records_of_def map_get_def split: option.splits)
  finally have a: "t \<in> set (duplicatePages (getStatistics s)) \<longleftrightarrow> 1 < length (records_of s t)" .
  have "length (index_documents s t) = length (records_of s t)"
    if "distinct (map indexNodeToken (records_of s t))"
    using that by (simp add: index_documents_def distinct_remdups_id)
  with a show ?thesis by simp
qed


theorem duplicatePages_counts_records_witness:
  "Some ''A'' \<in> set (duplicatePages (getStatistics two_indexes_run))
   \<and> length (records_of two_indexes_run (Some ''A'')) = 2
   \<and> index_documents two_indexes_run (Some ''A'') = [''IDX'', ''IDX2'']"
proof -
  have d: "distinct (map fst (shortcuts two_indexes_run))"
    by code_simp
  have r: "map indexNodeToken (records_of two_indexes_run (Some ''A'')) = [''IDX'', ''IDX2'']"
    by code_simp
  have i: "index_documents two_indexes_run (Some ''A'') = [''IDX'', ''IDX2'']"
    by code_simp
  have l: "length (records_of two_indexes_run (Some ''A'')) = 2"
    using r by (metis length_map length_Cons list.size(3) numeral_2_eq_2)
  from duplicatePages_counts_records [OF d, of "Some ''A''"] r i l
  show ?thesis by simp
qed

text \<open>
  A target whose link was removed on the remote side and created again by the next pass
  has two records on the same index document: it is in \<open>duplicatePages\<close>, and it is
  attached to one index document.
\<close>

theorem duplicatePages_same_index_twice:
  "duplicatePages (getStatistics relinked_run) = [Some ''A'', Some ''B'']
   \<and> map indexNodeToken (records_of relinked_run (Some ''A'')) = [''IDX'', ''IDX'']
   \<and> index_documents relinked_run (Some ''A'') = [''IDX'']"
  by code_simp

lemma add_to_indexes_frame:
  "wikis (add_to_indexes E t sp is s) = wikis s
   \<and> indexPages (add_to_indexes E t sp is s) = indexPages s
   \<and> shortcuts (add_to_indexes E t sp is s) = shortcuts s"
proof (induction "is" arbitrary: s)
  case Nil
  show ?case by simp
next
  case (Cons i "is")
  note c = createShortcut_console [of E i "Some t" "Some sp" s]
  show ?case
  proof (cases "fst (createShortcut E i (Some t) (Some sp) s)")
    case (Inl e)
    then show ?thesis
      using c Cons.IH [of "print (ErrAddToIndex i e) (snd (createShortcut E i (Some t) (Some sp) s))"]
      by (auto simp: print_def split: prod.splits)
  next
    case (Inr n)
    then show ?thesis
      using c Cons.IH [of "delay E 500 (snd (createShortcut E i (Some t) (Some sp) s))"]
      by (auto simp: delay_def split: prod.splits)
  qed
qed

text \<open>
  Claim C9. \<open>addToMultipleIndexes\<close> leaves the accumulated records as they are, and
  with them everything \<open>getStatistics\<close> returns: \<open>totalShortcuts\<close>,
  \<open>shortcutsByTopic\<close> and \<open>duplicatePages\<close>.
\<close>

theorem bulk_attach_records_nothing:
  "shortcuts (addToMultipleIndexes E target space indexNodeTokens s) = shortcuts s
   \<and> getStatistics (addToMultipleIndexes E target space indexNodeTokens s) = getStatistics s"
proof -
  let ?s0 = "print (LogAdding target (length indexNodeTokens)) s"
  have "wikis ?s0 = wikis s" "indexPages ?s0 = indexPages s" "shortcuts ?s0 = shortcuts s"
    by (simp_all add: print_def)
  with add_to_indexes_frame [of E target space indexNodeTokens ?s0] show ?thesis
    by (simp add: addToMultipleIndexes_def getStatistics_def)
qed

text \<open>
  Within one topic the pass starts at most one creation for a target: the creations
  that \<open>process_topic\<close> starts are pairwise different.
\<close>

lemma one_creation_per_target_in_a_topic:
  "\<exists>out. console (process_topic E test i ip ex topic s) = console s @ out
     \<and> distinct (attempts out)"
proof -
  let ?pages = "fst (collectTopicPages E test topic (print (LogProcessingTopic (topic_name topic)) s))"
  from pass_seg_process_topic [of i ex E test topic s ip] obtain out where
    out: "console (process_topic E test i ip ex topic s) = console s @ out"
      "attempts out = map (\<lambda>p. (page_key p, i)) (filter (\<lambda>p. page_key p \<notin> ex) ?pages)"
    unfolding pass_seg_def by blast
  have "?pages = removeDuplicates
      (fst (gatherTopicPages E test topic (print (LogProcessingTopic (topic_name topic)) s)))"
    by (simp add: collectTopicPages_def Let_def split: prod.splits)
  then have "distinct (map page_key ?pages)"
    by (simp add: removeDuplicates_distinct_keys)
  then have "distinct (map page_key (filter (\<lambda>p. page_key p \<notin> ex) ?pages))"
    by (simp add: distinct_map_filter)
  then have "distinct (map (\<lambda>p. (page_key p, i)) (filter (\<lambda>p. page_key p \<notin> ex) ?pages))"
    by (simp add: distinct_map inj_on_def)
  with out show ?thesis by auto
qed

text \<open>
  When the two topics are given to two passes, the second pass finds \<open>A\<close> in the listing
  and skips it: one link and one record.
\<close>

lemma same_target_in_two_passes:
  "map (\<lambda>e. (fst e, map topicId (snd e)))
     (shortcuts (snd (updateIndexPage sample_env plain_test ''IDX''
        (one_topic_run\<lparr>indexPages := [(''IDX'', sample_index [topic_bar])]\<rparr>)))) =
     [(Some ''A'', [''t-foo'']), (Some ''B'', [''t-foo''])]
   \<and> remote_links (world (snd (updateIndexPage sample_env plain_test ''IDX''
        (one_topic_run\<lparr>indexPages := [(''IDX'', sample_index [topic_bar])]\<rparr>)))) =
     [(''IDX'', Some ''A''), (''IDX'', Some ''B'')]"
  by code_simp

text \<open>
  Claim C1, on the code. One pass over an index document with two topics that both find
  the page \<open>A\<close>, not linked before: the pass starts two creations for the pair
  (\<open>IDX\<close>, \<open>A\<close>), the remote side holds two links, and two records are appended for
  the pair, one for each topic. The set of existing tokens is read once, before the loop
  over the topics, and a link that the pass creates is not added to it.
\<close>

theorem same_target_in_two_topics:
  "attempts (printed (sample_manager [topic_foo, topic_bar] 0) first_run) =
     [(Some ''A'', ''IDX''), (Some ''B'', ''IDX''), (Some ''A'', ''IDX'')]
   \<and> remote_links (world first_run) =
     [(''IDX'', Some ''A''), (''IDX'', Some ''B''), (''IDX'', Some ''A'')]
   \<and> map (\<lambda>r. (indexNodeToken r, targetNodeToken r, topicId r)) (records_of first_run (Some ''A'')) =
     [(''IDX'', Some ''A'', ''t-foo''), (''IDX'', Some ''A'', ''t-bar'')]"
  by code_simp


end
